theory Spec2Isabelle
  imports Complex_Main
begin

section \<open>Client-side core of the research platform (assets/scripts/main.js)\<close>

text \<open>
  The development embeds the parts of \<^verbatim>\<open>RobosexualityApp\<close> that drive the particle
  canvas, the two viewport watchers, the statistics counters, the scroll handler and the
  shared application state. JavaScript numbers are modelled as reals; where a result
  depends on how double arithmetic rounds (the count-up of the statistics counters) the
  rounding is a parameter of the model. Objects are
  finite maps from property names to values, a \<^verbatim>\<open>classList\<close> as an ordered list of
  distinct tokens, and the host's callback queues (animation frames, intersection
  batches) as explicit lists that the model's browser functions consume.
\<close>

subsection \<open>Values and the shared application state\<close>

datatype jsval = JStr string | JBool bool | JNum real | JUndefined

type_synonym jsobject = "string \<rightharpoonup> jsval"

text \<open>The object literal assigned to \<^verbatim>\<open>this.state\<close> in the constructor.\<close>

definition initialState :: jsobject where
  "initialState =
     [''currentSection'' \<mapsto> JStr ''home'',
      ''genderVersion'' \<mapsto> JStr ''male'',
      ''animationPlaying'' \<mapsto> JBool False,
      ''scrollPosition'' \<mapsto> JNum 0,
      ''isMenuOpen'' \<mapsto> JBool False]"

text \<open>
  Object spread \<^verbatim>\<open>{ ...a, ...b }\<close>: the own properties of \<^verbatim>\<open>a\<close>, then those of
  \<^verbatim>\<open>b\<close>, a later property replacing an earlier one of the same name.
\<close>

definition spread :: "jsobject \<Rightarrow> jsobject \<Rightarrow> jsobject" where
  "spread a b = a ++ b"

text \<open>\<^verbatim>\<open>getState() { return { ...this.state }; }\<close>\<close>

definition getState :: "jsobject \<Rightarrow> jsobject" where
  "getState st = spread Map.empty st"

text \<open>\<^verbatim>\<open>setState(newState) { this.state = { ...this.state, ...newState }; }\<close>\<close>

definition setState :: "jsobject \<Rightarrow> jsobject \<Rightarrow> jsobject" where
  "setState newState st = spread st newState"

subsection \<open>Class lists and intersection entries\<close>

text \<open>
  A \<^verbatim>\<open>classList\<close> is a DOMTokenList: an ordered set of tokens. \<^verbatim>\<open>add\<close> appends a
  token that is not yet present and does nothing otherwise, \<^verbatim>\<open>remove\<close> deletes it,
  \<^verbatim>\<open>toggle(token, force)\<close> adds when \<^verbatim>\<open>force\<close> is true and removes otherwise.
\<close>

type_synonym classList = "string list"

definition classList_contains :: "classList \<Rightarrow> string \<Rightarrow> bool" where
  "classList_contains cl t = (t \<in> set cl)"

definition classList_add :: "classList \<Rightarrow> string \<Rightarrow> classList" where
  "classList_add cl t = (if t \<in> set cl then cl else cl @ [t])"

definition classList_remove :: "classList \<Rightarrow> string \<Rightarrow> classList" where
  "classList_remove cl t = filter (\<lambda>u. u \<noteq> t) cl"

definition classList_toggle :: "classList \<Rightarrow> string \<Rightarrow> bool \<Rightarrow> classList" where
  "classList_toggle cl t force = (if force then classList_add cl t else classList_remove cl t)"

text \<open>
  An IntersectionObserverEntry, as far as the handlers read it: the target and the
  \<^verbatim>\<open>isIntersecting\<close> flag.
\<close>

datatype 'a entry = Entry (target: 'a) (isIntersecting: bool)

subsection \<open>The reveal watcher\<close>

text \<open>
  Elements are named by numbers; \<open>classes\<close> gives each element's class list and
  \<open>animationObserved\<close> the targets the \<^verbatim>\<open>animations\<close> observer is subscribed to.
\<close>

record reveal_world =
  classes :: "nat \<Rightarrow> classList"
  animationObserved :: "nat list"

text \<open>
  The selector of \<^verbatim>\<open>setupIntersectionObservers\<close>:
  \<^verbatim>\<open>.timeline__item, .story-card, .prediction-card, .finding-card\<close>.
\<close>

definition matchesRevealSelector :: "classList \<Rightarrow> bool" where
  "matchesRevealSelector cl =
     (classList_contains cl ''timeline__item'' \<or> classList_contains cl ''story-card'' \<or>
      classList_contains cl ''prediction-card'' \<or> classList_contains cl ''finding-card'')"

text \<open>
  \<^verbatim>\<open>querySelectorAll(...).forEach(el => animationObserver.observe(el))\<close> over the
  elements of the document, in document order.
\<close>

definition setupAnimationObserver :: "nat list \<Rightarrow> reveal_world \<Rightarrow> reveal_world" where
  "setupAnimationObserver document w =
     w\<lparr>animationObserved := filter (\<lambda>el. matchesRevealSelector (classes w el)) document\<rparr>"

text \<open>The statements the handler runs on the class list of an intersecting target.\<close>

definition revealClasses :: "classList \<Rightarrow> classList" where
  "revealClasses cl =
     (let c1 = classList_add cl ''fade-in-up--visible'';
          c2 = (if classList_contains c1 ''timeline__item''
                then classList_add c1 ''timeline__item--visible'' else c1);
          c3 = (if classList_contains c2 ''story-card''
                then classList_add c2 ''story-card--visible'' else c2);
          c4 = (if classList_contains c3 ''prediction-card''
                then classList_add c3 ''prediction-card--visible'' else c3)
      in c4)"

definition revealEntry :: "nat entry \<Rightarrow> reveal_world \<Rightarrow> reveal_world" where
  "revealEntry e w =
     (if isIntersecting e
      then w\<lparr>classes := (classes w)(target e := revealClasses (classes w (target e)))\<rparr>
      else w)"

text \<open>\<^verbatim>\<open>handleAnimationIntersection(entries)\<close>: \<^verbatim>\<open>entries.forEach\<close> of the above.\<close>

definition handleAnimationIntersection :: "nat entry list \<Rightarrow> reveal_world \<Rightarrow> reveal_world" where
  "handleAnimationIntersection entries w = foldl (\<lambda>w' e. revealEntry e w') w entries"

text \<open>
  The host delivers a batch to the observer's callback; only subscribed targets are
  reported, and a callback runs only when something is reported.
\<close>

definition deliverReveal :: "nat entry list \<Rightarrow> reveal_world \<Rightarrow> reveal_world" where
  "deliverReveal batch w =
     (let reported = filter (\<lambda>e. target e \<in> set (animationObserved w)) batch
      in if reported = [] then w else handleAnimationIntersection reported w)"

definition deliverRevealAll :: "nat entry list list \<Rightarrow> reveal_world \<Rightarrow> reveal_world" where
  "deliverRevealAll batches w = foldl (\<lambda>w' b. deliverReveal b w') w batches"

text \<open>
  A class list on which the handler's statements have nothing left to add.
\<close>

definition revealed :: "classList \<Rightarrow> bool" where
  "revealed cl =
     (''fade-in-up--visible'' \<in> set cl \<and>
      (''timeline__item'' \<in> set cl \<longrightarrow> ''timeline__item--visible'' \<in> set cl) \<and>
      (''story-card'' \<in> set cl \<longrightarrow> ''story-card--visible'' \<in> set cl) \<and>
      (''prediction-card'' \<in> set cl \<longrightarrow> ''prediction-card--visible'' \<in> set cl))"

text \<open>A page with one story card, element 0, after the observers are set up.\<close>

definition cardPage :: reveal_world where
  "cardPage =
     setupAnimationObserver [0]
       \<lparr>classes = (\<lambda>el. [''story-card'']), animationObserved = []\<rparr>"

subsection \<open>The section watcher\<close>

text \<open>
  A navigation link with its \<^verbatim>\<open>href\<close> attribute and class list, and an analytics
  event as \<^verbatim>\<open>trackEvent\<close> pushes it (the fields read from the clock and the
  browser are left out).
\<close>

record navLink =
  href :: string
  linkClasses :: classList

record analyticsEvent =
  category :: string
  action :: string
  label :: string
  eventValue :: real

text \<open>
  The part of the application the section watcher touches: \<^verbatim>\<open>this.state\<close>, the
  links of the navigation module and the events of the analytics module (\<open>None\<close> when
  \<^verbatim>\<open>this.modules.get(...)\<close> is undefined), and the trace \<open>navCalls\<close> of the section
  ids \<^verbatim>\<open>updateActiveLink\<close> was called with.
\<close>

record section_world =
  appState :: jsobject
  navigation :: "navLink list option"
  navCalls :: "string list"
  analytics :: "analyticsEvent list option"

text \<open>
  \<^verbatim>\<open>updateActiveLink(sectionId)\<close>: every link's active class is toggled with the force
  flag \<^verbatim>\<open>link.getAttribute('href') === `#${sectionId}`\<close>.
\<close>

definition updateActiveLink :: "string \<Rightarrow> navLink list \<Rightarrow> navLink list" where
  "updateActiveLink sectionId links =
     map (\<lambda>l. l\<lparr>linkClasses :=
            classList_toggle (linkClasses l) ''nav__link--active''
              (href l = CHR ''#'' # sectionId)\<rparr>) links"

text \<open>\<^verbatim>\<open>trackSectionView(sectionId)\<close> is \<^verbatim>\<open>trackEvent('Section', 'View', sectionId)\<close>.\<close>

definition trackSectionView :: "string \<Rightarrow> analyticsEvent list \<Rightarrow> analyticsEvent list" where
  "trackSectionView sectionId events =
     events @ [\<lparr>category = ''Section'', action = ''View'', label = sectionId, eventValue = 0\<rparr>]"

text \<open>
  One iteration of \<^verbatim>\<open>entries.forEach\<close> in \<^verbatim>\<open>handleSectionIntersection\<close>; the entry's
  target is given by its \<^verbatim>\<open>id\<close>.
\<close>

definition sectionEntry :: "string entry \<Rightarrow> section_world \<Rightarrow> section_world" where
  "sectionEntry e w =
     (if isIntersecting e
      then
        (let sectionId = target e;
             w1 = w\<lparr>appState := (appState w)(''currentSection'' \<mapsto> JStr sectionId)\<rparr>;
             w2 = (case navigation w1 of
                     None \<Rightarrow> w1
                   | Some links \<Rightarrow>
                       w1\<lparr>navigation := Some (updateActiveLink sectionId links),
                          navCalls := navCalls w1 @ [sectionId]\<rparr>);
             w3 = (case analytics w2 of
                     None \<Rightarrow> w2
                   | Some events \<Rightarrow> w2\<lparr>analytics := Some (trackSectionView sectionId events)\<rparr>)
         in w3)
      else w)"

definition handleSectionIntersection :: "string entry list \<Rightarrow> section_world \<Rightarrow> section_world" where
  "handleSectionIntersection entries w = foldl (\<lambda>w' e. sectionEntry e w') w entries"

text \<open>The ids of the intersecting entries of a batch, in the order reported.\<close>

definition intersectingIds :: "string entry list \<Rightarrow> string list" where
  "intersectingIds entries = map target (filter isIntersecting entries)"

text \<open>A page with three links and both modules present, before any batch.\<close>

definition navPage :: section_world where
  "navPage =
     \<lparr>appState = initialState,
      navigation = Some [\<lparr>href = ''#home'', linkClasses = [''nav__link'', ''nav__link--active'']\<rparr>,
                         \<lparr>href = ''#history'', linkClasses = [''nav__link'']\<rparr>,
                         \<lparr>href = ''#stories'', linkClasses = [''nav__link'']\<rparr>],
      navCalls = [],
      analytics = Some []\<rparr>"

subsection \<open>Particles\<close>

text \<open>
  The fields of \<^verbatim>\<open>class Particle\<close> (\<^verbatim>\<open>x, y, vx, vy, size, opacity\<close>) and the two
  dimensions of the canvas the particle system reads.
\<close>

record particle =
  p_x :: real
  p_y :: real
  p_vx :: real
  p_vy :: real
  p_size :: real
  p_opacity :: real

record canvas =
  width :: nat
  height :: nat

text \<open>
  \<^verbatim>\<open>Math.random()\<close> is a source of draws: \<open>rnd k\<close> is the value of the \<open>k\<close>-th call.
  The constructor makes six calls, in the order of its assignments, starting at draw
  \<open>k\<close>.
\<close>

definition newParticle :: "(nat \<Rightarrow> real) \<Rightarrow> nat \<Rightarrow> canvas \<Rightarrow> particle" where
  "newParticle rnd k cv =
     \<lparr>p_x = rnd k * real (width cv),
      p_y = rnd (k + 1) * real (height cv),
      p_vx = (rnd (k + 2) - 0.5) * 0.5,
      p_vy = (rnd (k + 3) - 0.5) * 0.5,
      p_size = rnd (k + 4) * 2 + 1,
      p_opacity = rnd (k + 5) * 0.5 + 0.2\<rparr>"

text \<open>
  \<^verbatim>\<open>for (let i = 0; i < particleCount; i++) { particles.push(new Particle()); }\<close>
  with the loop bound as a parameter; \<open>k\<close> counts the draws made so far.
\<close>

function pushParticles ::
  "(nat \<Rightarrow> real) \<Rightarrow> canvas \<Rightarrow> nat \<Rightarrow> nat \<Rightarrow> nat \<Rightarrow> particle list \<Rightarrow> particle list" where
  "pushParticles rnd cv count i k particles =
     (if i < count
      then pushParticles rnd cv count (i + 1) (k + 6) (particles @ [newParticle rnd k cv])
      else particles)"
  by pat_completeness auto
termination
  by (relation "measure (\<lambda>(rnd, cv, count, i, k, particles). count - i)") auto

declare pushParticles.simps [simp del]

definition particleCount :: nat where
  "particleCount = 50"

definition createParticles :: "(nat \<Rightarrow> real) \<Rightarrow> canvas \<Rightarrow> particle list" where
  "createParticles rnd cv = pushParticles rnd cv particleCount 0 0 []"

text \<open>\<^verbatim>\<open>Particle.update()\<close>, the four statements in order.\<close>

definition update :: "canvas \<Rightarrow> particle \<Rightarrow> particle" where
  "update cv p =
     (let p1 = p\<lparr>p_x := p_x p + p_vx p\<rparr>;
          p2 = p1\<lparr>p_y := p_y p1 + p_vy p1\<rparr>;
          p3 = (if p_x p2 < 0 \<or> p_x p2 > real (width cv)
                then p2\<lparr>p_vx := p_vx p2 * (- 1)\<rparr> else p2);
          p4 = (if p_y p3 < 0 \<or> p_y p3 > real (height cv)
                then p3\<lparr>p_vy := p_vy p3 * (- 1)\<rparr> else p3)
      in p4)"

text \<open>The calls made on the 2D drawing context.\<close>

datatype ctxCall =
    ClearRect real real real real
  | Save
  | Restore
  | GlobalAlpha real
  | FillStyle string
  | StrokeStyle string
  | LineWidth real
  | BeginPath
  | Arc real real real real real
  | Fill
  | MoveTo real real
  | LineTo real real
  | Stroke

text \<open>\<^verbatim>\<open>Particle.draw()\<close>\<close>

definition draw :: "particle \<Rightarrow> ctxCall list" where
  "draw p =
     [Save, GlobalAlpha (p_opacity p), FillStyle ''#00FFFF'', BeginPath,
      Arc (p_x p) (p_y p) (p_size p) 0 (pi * 2), Fill, Restore]"

definition maxDistance :: real where
  "maxDistance = 100"

text \<open>The \<^verbatim>\<open>distance\<close> computed in the inner loop of \<^verbatim>\<open>drawConnections\<close>.\<close>

definition distance :: "particle \<Rightarrow> particle \<Rightarrow> real" where
  "distance p q =
     (let dx = p_x p - p_x q; dy = p_y p - p_y q in sqrt (dx * dx + dy * dy))"

text \<open>The body of the inner loop for the particles at indices \<open>i\<close> and \<open>j\<close>.\<close>

definition connection :: "particle \<Rightarrow> particle \<Rightarrow> ctxCall list" where
  "connection p q =
     (if distance p q < maxDistance
      then
        (let opacity = (maxDistance - distance p q) / maxDistance * 0.2
         in [Save, GlobalAlpha opacity, StrokeStyle ''#00FFFF'', LineWidth 0.5, BeginPath,
             MoveTo (p_x p) (p_y p), LineTo (p_x q) (p_y q), Stroke, Restore])
      else [])"

text \<open>
  \<^verbatim>\<open>drawConnections(ctx, particles)\<close>: the outer loop over \<open>i\<close> from 0, the inner loop
  over \<open>j\<close> from \<open>i + 1\<close>, both below \<^verbatim>\<open>particles.length\<close>.
\<close>

definition drawConnections :: "particle list \<Rightarrow> ctxCall list" where
  "drawConnections particles =
     concat (map (\<lambda>i.
        concat (map (\<lambda>j. connection (particles ! i) (particles ! j))
                  [i + 1 ..< length particles]))
       [0 ..< length particles])"

text \<open>
  One run of the closure \<^verbatim>\<open>animate\<close> up to the request for the next frame: the
  surface is cleared, every particle is updated and then drawn, the connections are
  drawn from the updated particles. The result is the calls made and the particles as
  the frame leaves them.
\<close>

definition updateAndDraw :: "canvas \<Rightarrow> ctxCall list \<times> particle list \<Rightarrow> particle \<Rightarrow> ctxCall list \<times> particle list" where
  "updateAndDraw cv acc p =
     (let p' = update cv p in (fst acc @ draw p', snd acc @ [p']))"

definition animate :: "canvas \<Rightarrow> particle list \<Rightarrow> ctxCall list \<times> particle list" where
  "animate cv particles =
     (let cleared = [ClearRect 0 0 (real (width cv)) (real (height cv))];
          drawn = foldl (updateAndDraw cv) (cleared, []) particles
      in (fst drawn @ drawConnections (snd drawn), snd drawn))"

text \<open>The index pairs the two loops of \<^verbatim>\<open>drawConnections\<close> visit, in order.\<close>

definition pairs :: "nat \<Rightarrow> (nat \<times> nat) list" where
  "pairs n = concat (map (\<lambda>i. map (\<lambda>j. (i, j)) [i + 1 ..< n]) [0 ..< n])"

text \<open>Three particles at rest on an 800 by 600 canvas, two of them five units apart.\<close>

definition threeParticles :: "particle list" where
  "threeParticles =
     [\<lparr>p_x = 0, p_y = 0, p_vx = 0, p_vy = 0, p_size = 1, p_opacity = 0.5\<rparr>,
      \<lparr>p_x = 3, p_y = 4, p_vx = 0, p_vy = 0, p_size = 2, p_opacity = 0.5\<rparr>,
      \<lparr>p_x = 300, p_y = 400, p_vx = 0, p_vy = 0, p_size = 3, p_opacity = 0.5\<rparr>]"

definition surface :: canvas where
  "surface = \<lparr>width = 800, height = 600\<rparr>"

text \<open>A particle about to leave the canvas on the left.\<close>

definition edgeParticle :: particle where
  "edgeParticle =
     \<lparr>p_x = 0.125, p_y = 300, p_vx = - 0.25, p_vy = 0.125, p_size = 2, p_opacity = 0.5\<rparr>"

subsection \<open>Animation frames and the particle loop\<close>

text \<open>
  The host's animation frame queue and what the application keeps about the particle
  loop. \<open>nextHandle\<close> is the handle the next \<^verbatim>\<open>requestAnimationFrame\<close> returns
  (handles are positive and increase by one), \<open>frameCallbacks\<close> the pending requests
  with the particle system whose \<^verbatim>\<open>animate\<close> closure each will run,
  \<open>animationId\<close> the closure variable \<^verbatim>\<open>animationId\<close> of every particle system
  created so far, \<open>particleAnimationId\<close> the property \<^verbatim>\<open>this.particleAnimationId\<close>
  (\<open>None\<close> for \<^verbatim>\<open>undefined\<close>), and \<open>framesRun\<close> counts the runs of \<^verbatim>\<open>animate\<close>.
  What one run draws is \<open>animate\<close> above; here only its scheduling is followed.
\<close>

record loop_world =
  canvasPresent :: bool
  nextHandle :: nat
  frameCallbacks :: "(nat \<times> nat) list"
  animationId :: "nat option list"
  particleAnimationId :: "nat option"
  framesRun :: nat

definition requestAnimationFrame :: "nat \<Rightarrow> loop_world \<Rightarrow> nat \<times> loop_world" where
  "requestAnimationFrame k s =
     (nextHandle s,
      s\<lparr>frameCallbacks := frameCallbacks s @ [(nextHandle s, k)],
        nextHandle := nextHandle s + 1\<rparr>)"

definition cancelAnimationFrame :: "nat \<Rightarrow> loop_world \<Rightarrow> loop_world" where
  "cancelAnimationFrame h s =
     s\<lparr>frameCallbacks := filter (\<lambda>c. fst c \<noteq> h) (frameCallbacks s)\<rparr>"

text \<open>
  The closure \<^verbatim>\<open>animate\<close> of particle system \<open>k\<close>: one frame, then
  \<^verbatim>\<open>animationId = requestAnimationFrame(animate)\<close>.
\<close>

definition animateLoop :: "nat \<Rightarrow> loop_world \<Rightarrow> loop_world" where
  "animateLoop k s =
     (let s1 = s\<lparr>framesRun := framesRun s + 1\<rparr>;
          r = requestAnimationFrame k s1
      in (snd r)\<lparr>animationId := (animationId (snd r))[k := Some (fst r)]\<rparr>)"

text \<open>
  \<^verbatim>\<open>initializeParticles()\<close>: nothing without the canvas; otherwise a new particle
  system, one synchronous call of \<^verbatim>\<open>animate()\<close>, and
  \<^verbatim>\<open>this.particleAnimationId = animationId\<close>.
\<close>

definition initializeParticles :: "loop_world \<Rightarrow> loop_world" where
  "initializeParticles s =
     (if \<not> canvasPresent s then s
      else
        (let k = length (animationId s);
             s1 = s\<lparr>animationId := animationId s @ [None]\<rparr>;
             s2 = animateLoop k s1
         in s2\<lparr>particleAnimationId := animationId s2 ! k\<rparr>))"

text \<open>The truth value JavaScript gives a handle: \<^verbatim>\<open>undefined\<close> and 0 are false.\<close>

definition truthy :: "nat option \<Rightarrow> bool" where
  "truthy v = (case v of None \<Rightarrow> False | Some h \<Rightarrow> h \<noteq> 0)"

text \<open>
  \<^verbatim>\<open>pauseAnimations() { if (this.particleAnimationId)
  cancelAnimationFrame(this.particleAnimationId); }\<close>
\<close>

definition pauseAnimations :: "loop_world \<Rightarrow> loop_world" where
  "pauseAnimations s =
     (case particleAnimationId s of
        None \<Rightarrow> s
      | Some h \<Rightarrow> if truthy (Some h) then cancelAnimationFrame h s else s)"

text \<open>
  \<^verbatim>\<open>resumeAnimations() { if (!this.particleAnimationId) this.initializeParticles(); }\<close>
\<close>

definition resumeAnimations :: "loop_world \<Rightarrow> loop_world" where
  "resumeAnimations s =
     (if \<not> truthy (particleAnimationId s) then initializeParticles s else s)"

text \<open>\<^verbatim>\<open>updateParticles()\<close>, called on resize.\<close>

definition updateParticles :: "loop_world \<Rightarrow> loop_world" where
  "updateParticles s =
     (case particleAnimationId s of
        None \<Rightarrow> s
      | Some h \<Rightarrow>
          if truthy (Some h) then initializeParticles (cancelAnimationFrame h s) else s)"

text \<open>\<^verbatim>\<open>handleBlur\<close> and \<^verbatim>\<open>handleFocus\<close>; \<^verbatim>\<open>handleVisibilityChange\<close> picks one of
  the two by \<^verbatim>\<open>document.hidden\<close>.\<close>

definition handleBlur :: "loop_world \<Rightarrow> loop_world" where
  "handleBlur s = pauseAnimations s"

definition handleFocus :: "loop_world \<Rightarrow> loop_world" where
  "handleFocus s = resumeAnimations s"

definition handleVisibilityChange :: "bool \<Rightarrow> loop_world \<Rightarrow> loop_world" where
  "handleVisibilityChange hidden s = (if hidden then pauseAnimations s else resumeAnimations s)"

text \<open>
  One display refresh of the host: the requests pending when the refresh starts are
  run in the order they were made; requests made while they run wait for the next
  refresh.
\<close>

definition runFrame :: "loop_world \<Rightarrow> loop_world" where
  "runFrame s =
     foldl (\<lambda>s' c. animateLoop (snd c) s') (s\<lparr>frameCallbacks := []\<rparr>) (frameCallbacks s)"

text \<open>The page with the canvas present, before the application starts.\<close>

definition pageLoad :: loop_world where
  "pageLoad =
     \<lparr>canvasPresent = True, nextHandle = 1, frameCallbacks = [], animationId = [],
      particleAnimationId = None, framesRun = 0\<rparr>"

subsection \<open>The scroll handler\<close>

datatype error = TypeError

text \<open>
  What the scroll handlers read and write: the scroll offsets of the window and of the
  document element, the class list of the \<^verbatim>\<open>.header\<close> element and the vertical
  translation of the \<^verbatim>\<open>.hero\<close> element (\<open>None\<close> when \<^verbatim>\<open>querySelector\<close> returns
  \<^verbatim>\<open>null\<close>), and \<^verbatim>\<open>this.state\<close>.
\<close>

record scroll_world =
  pageYOffset :: real
  scrollTop :: real
  header :: "classList option"
  hero :: "real option"
  scrollState :: jsobject

definition scrollThreshold :: real where
  "scrollThreshold = 100"

text \<open>\<^verbatim>\<open>handleParallax(scrollY)\<close>, guarded by \<^verbatim>\<open>if (hero)\<close>.\<close>

definition handleParallax :: "real \<Rightarrow> scroll_world \<Rightarrow> scroll_world" where
  "handleParallax scrollY w =
     (case hero w of
        None \<Rightarrow> w
      | Some t \<Rightarrow> w\<lparr>hero := Some (scrollY * 0.5)\<rparr>)"

text \<open>
  \<^verbatim>\<open>handleScroll()\<close> of the application class. The state is written first; reading
  \<^verbatim>\<open>classList\<close> of a \<^verbatim>\<open>null\<close> header throws, and the statements after it do not
  run. The result is the exception, if any, and the world as the call leaves it.
\<close>

definition handleScroll :: "scroll_world \<Rightarrow> error option \<times> scroll_world" where
  "handleScroll w =
     (let scrollY = pageYOffset w;
          w1 = w\<lparr>scrollState := (scrollState w)(''scrollPosition'' \<mapsto> JNum scrollY)\<rparr>
      in case header w1 of
           None \<Rightarrow> (Some TypeError, w1)
         | Some cl \<Rightarrow>
             (let w2 = (if scrollY > scrollThreshold
                        then w1\<lparr>header := Some (classList_add cl ''header--scrolled'')\<rparr>
                        else w1\<lparr>header := Some (classList_remove cl ''header--scrolled'')\<rparr>)
              in (None, handleParallax scrollY w2)))"

text \<open>
  The scroll handler of the fallback script for older browsers, guarded by
  \<^verbatim>\<open>if (header)\<close>; \<^verbatim>\<open>window.pageYOffset || document.documentElement.scrollTop\<close>
  takes the second offset when the first is 0.
\<close>

definition fallback_handleScroll :: "scroll_world \<Rightarrow> scroll_world" where
  "fallback_handleScroll w =
     (let scrollY = (if pageYOffset w \<noteq> 0 then pageYOffset w else scrollTop w)
      in case header w of
           None \<Rightarrow> w
         | Some cl \<Rightarrow>
             if scrollY > 100
             then w\<lparr>header := Some (classList_add cl ''header--scrolled'')\<rparr>
             else w\<lparr>header := Some (classList_remove cl ''header--scrolled'')\<rparr>)"

text \<open>A page scrolled to offset 250 that has neither a header nor a hero element.\<close>

definition barePage :: scroll_world where
  "barePage =
     \<lparr>pageYOffset = 250, scrollTop = 250, header = None, hero = None,
      scrollState = initialState\<rparr>"

subsection \<open>Statistics counters\<close>












subsection \<open>The state update touches the named fields only\<close>

text \<open>
  C10. For every application state and every update object, \<^verbatim>\<open>setState\<close> gives each
  key of the update object the value the update carries and leaves every other field of
  the state as it was; in particular each of \<^verbatim>\<open>currentSection\<close>,
  \<^verbatim>\<open>genderVersion\<close>, \<^verbatim>\<open>animationPlaying\<close>, \<^verbatim>\<open>scrollPosition\<close> and
  \<^verbatim>\<open>isMenuOpen\<close> is unchanged unless the update names it.
\<close>

theorem setState_frame:
  "(\<forall>k. k \<in> dom newState \<longrightarrow> setState newState st k = newState k) \<and>
   (\<forall>k. k \<notin> dom newState \<longrightarrow> setState newState st k = st k)"
  by (auto simp: setState_def spread_def map_add_dom_app_simps)

theorem setState_frame_witness:
  "''isMenuOpen'' \<in> dom [''isMenuOpen'' \<mapsto> JBool True] \<and>
   setState [''isMenuOpen'' \<mapsto> JBool True] initialState ''isMenuOpen'' = Some (JBool True) \<and>
   ''currentSection'' \<notin> dom [''isMenuOpen'' \<mapsto> JBool True] \<and>
   setState [''isMenuOpen'' \<mapsto> JBool True] initialState ''currentSection'' = Some (JStr ''home'') \<and>
   setState [''isMenuOpen'' \<mapsto> JBool True] initialState ''genderVersion'' = Some (JStr ''male'') \<and>
   setState [''isMenuOpen'' \<mapsto> JBool True] initialState ''animationPlaying'' = Some (JBool False) \<and>
   setState [''isMenuOpen'' \<mapsto> JBool True] initialState ''scrollPosition'' = Some (JNum 0)"
  using setState_frame [of "[''isMenuOpen'' \<mapsto> JBool True]" initialState]
  by (simp add: initialState_def)

subsection \<open>Class lists under the reveal handler\<close>

lemma set_classList_add [simp]: "set (classList_add cl t) = insert t (set cl)"
  by (auto simp: classList_add_def)

lemma classList_add_present: "t \<in> set cl \<Longrightarrow> classList_add cl t = cl"
  by (simp add: classList_add_def)

lemma distinct_classList_add [simp]: "distinct (classList_add cl t) = distinct cl"
  by (simp add: classList_add_def)

lemma set_revealClasses:
  "set (revealClasses cl) =
     set cl \<union> {''fade-in-up--visible''} \<union>
     (if ''timeline__item'' \<in> set cl then {''timeline__item--visible''} else {}) \<union>
     (if ''story-card'' \<in> set cl then {''story-card--visible''} else {}) \<union>
     (if ''prediction-card'' \<in> set cl then {''prediction-card--visible''} else {})"
  by (auto simp: revealClasses_def classList_contains_def Let_def)

lemma revealed_revealClasses: "revealed (revealClasses cl)"
  unfolding revealed_def set_revealClasses by simp

lemma revealClasses_fixed: "revealed cl \<Longrightarrow> revealClasses cl = cl"
  by (simp add: revealed_def revealClasses_def classList_contains_def Let_def
      classList_add_present)

lemma revealClasses_idem: "revealClasses (revealClasses cl) = revealClasses cl"
  by (rule revealClasses_fixed [OF revealed_revealClasses])

lemma revealClasses_distinct: "distinct (revealClasses cl) = distinct cl"
  by (simp add: revealClasses_def classList_contains_def Let_def)

lemma revealEntry_observed [simp]: "animationObserved (revealEntry e w) = animationObserved w"
  by (simp add: revealEntry_def)

lemma handle_observed [simp]:
  "animationObserved (handleAnimationIntersection es w) = animationObserved w"
  unfolding handleAnimationIntersection_def
  by (induction es arbitrary: w) simp_all

lemma handle_Cons:
  "handleAnimationIntersection (e # es) w = handleAnimationIntersection es (revealEntry e w)"
  by (simp add: handleAnimationIntersection_def)

lemma handle_Nil [simp]: "handleAnimationIntersection [] w = w"
  by (simp add: handleAnimationIntersection_def)

text \<open>
  What a batch does to one element: its class list goes through \<open>revealClasses\<close> when
  some entry of the batch reports it as intersecting, and is untouched otherwise.
\<close>

lemma classes_handle:
  "classes (handleAnimationIntersection es w) el =
     (if \<exists>e \<in> set es. isIntersecting e \<and> target e = el
      then revealClasses (classes w el) else classes w el)"
proof (induction es arbitrary: w)
  case Nil
  show ?case by simp
next
  case (Cons e es)
  show ?case
    unfolding handle_Cons Cons.IH
    by (auto simp: revealEntry_def revealClasses_idem)
qed

lemma deliverReveal_observed [simp]:
  "animationObserved (deliverReveal b w) = animationObserved w"
  by (simp add: deliverReveal_def Let_def)

lemma classes_deliverReveal:
  "classes (deliverReveal b w) el =
     (if \<exists>e \<in> set b. isIntersecting e \<and> target e = el \<and> el \<in> set (animationObserved w)
      then revealClasses (classes w el) else classes w el)"
  by (auto simp: deliverReveal_def Let_def classes_handle filter_empty_conv)

lemma deliverRevealAll_observed [simp]:
  "animationObserved (deliverRevealAll bs w) = animationObserved w"
  unfolding deliverRevealAll_def
  by (induction bs arbitrary: w) simp_all

lemma deliverRevealAll_mono:
  "set (classes w el) \<subseteq> set (classes (deliverRevealAll bs w) el)"
  unfolding deliverRevealAll_def
proof (induction bs arbitrary: w)
  case Nil
  show ?case by simp
next
  case (Cons b bs)
  have "set (classes w el) \<subseteq> set (classes (deliverReveal b w) el)"
    by (auto simp: classes_deliverReveal set_revealClasses)
  also have "\<dots> \<subseteq> set (classes (foldl (\<lambda>w' b. deliverReveal b w') (deliverReveal b w) bs) el)"
    by (rule Cons.IH)
  finally show ?case by simp
qed

lemma deliverRevealAll_revealed:
  "revealed (classes w el) \<Longrightarrow> classes (deliverRevealAll bs w) el = classes w el"
  unfolding deliverRevealAll_def
proof (induction bs arbitrary: w)
  case Nil
  show ?case by simp
next
  case (Cons b bs)
  have same: "classes (deliverReveal b w) el = classes w el"
    using Cons.prems by (simp add: classes_deliverReveal revealClasses_fixed)
  with Cons.prems have "revealed (classes (deliverReveal b w) el)" by simp
  from Cons.IH [OF this] same show ?case by simp
qed

subsection \<open>A revealed element stays revealed, and stays subscribed\<close>

text \<open>
  C3, as the code has it. A subscribed element that a batch reports as intersecting
  carries the visible marker afterwards; whatever batches the reveal watcher receives
  later, no class of any element is ever removed, so a revealed element is never hidden
  again and the step from hidden to visible happens at most once per element. The
  handler never unsubscribes a target: the set of watched elements is the same after any
  number of batches.
\<close>

theorem reveal_never_rehidden:
  "(Entry el True \<in> set batch \<and> el \<in> set (animationObserved w) \<longrightarrow>
      ''fade-in-up--visible'' \<in> set (classes (deliverReveal batch w) el)) \<and>
   set (classes w el) \<subseteq> set (classes (deliverRevealAll batches w) el) \<and>
   (''fade-in-up--visible'' \<in> set (classes w el) \<longrightarrow>
      ''fade-in-up--visible'' \<in> set (classes (deliverRevealAll batches w) el)) \<and>
   animationObserved (deliverRevealAll batches w) = animationObserved w"
proof -
  have first: "Entry el True \<in> set batch \<and> el \<in> set (animationObserved w) \<longrightarrow>
      ''fade-in-up--visible'' \<in> set (classes (deliverReveal batch w) el)"
    by (force simp: classes_deliverReveal set_revealClasses)
  have grows: "set (classes w el) \<subseteq> set (classes (deliverRevealAll batches w) el)"
    by (rule deliverRevealAll_mono)
  from first grows show ?thesis by auto
qed

theorem reveal_never_rehidden_witness:
  "Entry 0 True \<in> set [Entry 0 True] \<and> 0 \<in> set (animationObserved cardPage) \<and>
   ''fade-in-up--visible'' \<in> set (classes (deliverReveal [Entry 0 True] cardPage) 0) \<and>
   ''fade-in-up--visible'' \<in>
      set (classes (deliverRevealAll [[Entry 0 False], [Entry 0 True]]
                     (deliverReveal [Entry 0 True] cardPage)) 0) \<and>
   animationObserved (deliverRevealAll [[Entry 0 False], [Entry 0 True]]
                       (deliverReveal [Entry 0 True] cardPage)) = [0]"
proof -
  have subscribed: "animationObserved cardPage = [0]"
    by (simp add: cardPage_def setupAnimationObserver_def matchesRevealSelector_def
        classList_contains_def)
  have shown: "''fade-in-up--visible'' \<in> set (classes (deliverReveal [Entry 0 True] cardPage) 0)"
    using reveal_never_rehidden [of 0 "[Entry 0 True]" cardPage "[]"] subscribed by simp
  show ?thesis
    using reveal_never_rehidden [of 0 "[]" "deliverReveal [Entry 0 True] cardPage"
        "[[Entry 0 False], [Entry 0 True]]"] shown subscribed
    by simp
qed

text \<open>
  The claim as the specification words it also says that a revealed element is
  unsubscribed. On the page with one story card the element is revealed by the first
  batch and is still among the watcher's targets afterwards.
\<close>

theorem reveal_keeps_subscription:
  "classes (deliverReveal [Entry 0 True] cardPage) 0 =
     [''story-card'', ''fade-in-up--visible'', ''story-card--visible''] \<and>
   0 \<in> set (animationObserved (deliverReveal [Entry 0 True] cardPage))"
  by (simp add: cardPage_def setupAnimationObserver_def matchesRevealSelector_def
      classList_contains_def classes_deliverReveal revealClasses_def classList_add_def)

subsection \<open>Revealing twice is revealing once\<close>

text \<open>
  C9. Once a batch has revealed an element, running the handler on any further batch
  leaves that element's class list exactly as it was, whether or not the batch reports
  the element again; a class list without duplicates stays without duplicates. The
  handler is a total function of the batch and the page: it has no failing branch.
\<close>

theorem reveal_idempotent:
  "Entry el True \<in> set first \<Longrightarrow>
   classes (handleAnimationIntersection again (handleAnimationIntersection first w)) el =
     classes (handleAnimationIntersection first w) el \<and>
   (distinct (classes w el) \<longrightarrow>
      distinct (classes (handleAnimationIntersection again (handleAnimationIntersection first w)) el))"
proof -
  assume "Entry el True \<in> set first"
  then have hit: "\<exists>e \<in> set first. isIntersecting e \<and> target e = el" by force
  then show ?thesis
    by (simp add: classes_handle revealClasses_idem revealClasses_distinct)
qed

theorem reveal_idempotent_witness:
  "Entry 0 True \<in> set [Entry 0 True] \<and>
   classes (handleAnimationIntersection [Entry 0 True]
             (handleAnimationIntersection [Entry 0 True] cardPage)) 0 =
     [''story-card'', ''fade-in-up--visible'', ''story-card--visible''] \<and>
   distinct (classes cardPage 0) \<and>
   distinct (classes (handleAnimationIntersection [Entry 0 True]
                       (handleAnimationIntersection [Entry 0 True] cardPage)) 0)"
proof -
  have once: "classes (handleAnimationIntersection [Entry 0 True] cardPage) 0 =
      [''story-card'', ''fade-in-up--visible'', ''story-card--visible'']"
    by (simp add: cardPage_def setupAnimationObserver_def classes_handle revealClasses_def
        classList_contains_def classList_add_def)
  have start: "distinct (classes cardPage 0)"
    by (simp add: cardPage_def setupAnimationObserver_def)
  show ?thesis
    using reveal_idempotent [of 0 "[Entry 0 True]" "[Entry 0 True]" cardPage] once start
    by simp
qed

subsection \<open>The section watcher: the last intersecting entry wins\<close>

lemma handleSection_snoc:
  "handleSectionIntersection (es @ [e]) w = sectionEntry e (handleSectionIntersection es w)"
  by (simp add: handleSectionIntersection_def)

lemma handleSection_Nil [simp]: "handleSectionIntersection [] w = w"
  by (simp add: handleSectionIntersection_def)

lemma navigation_None_sectionEntry:
  "(navigation (sectionEntry e w) = None) = (navigation w = None)"
  by (simp add: sectionEntry_def Let_def split: option.splits)

lemma navigation_None_handle:
  "(navigation (handleSectionIntersection es w) = None) = (navigation w = None)"
  by (induction es rule: rev_induct) (simp_all add: handleSection_snoc navigation_None_sectionEntry)

lemma navCalls_sectionEntry:
  "navCalls (sectionEntry e w) =
     navCalls w @ (if isIntersecting e \<and> navigation w \<noteq> None then [target e] else [])"
  by (simp add: sectionEntry_def Let_def split: option.splits)

lemma currentSection_sectionEntry:
  "appState (sectionEntry e w) ''currentSection'' =
     (if isIntersecting e then Some (JStr (target e)) else appState w ''currentSection'')"
  by (simp add: sectionEntry_def Let_def split: option.splits)

lemma navCalls_handle:
  "navCalls (handleSectionIntersection es w) =
     navCalls w @ (if navigation w = None then [] else intersectingIds es)"
  by (induction es rule: rev_induct)
    (simp_all add: handleSection_snoc navCalls_sectionEntry navigation_None_handle
      intersectingIds_def)

lemma currentSection_handle:
  "appState (handleSectionIntersection es w) ''currentSection'' =
     (if intersectingIds es = [] then appState w ''currentSection''
      else Some (JStr (last (intersectingIds es))))"
  by (induction es rule: rev_induct)
    (simp_all add: handleSection_snoc currentSection_sectionEntry intersectingIds_def)

lemma navigation_sectionEntry:
  "navigation (sectionEntry e w) =
     (if isIntersecting e then map_option (updateActiveLink (target e)) (navigation w)
      else navigation w)"
  by (simp add: sectionEntry_def Let_def split: option.splits)

lemma navigation_handle:
  "navigation (handleSectionIntersection es w) =
     map_option (\<lambda>links. foldl (\<lambda>ls i. updateActiveLink i ls) links (intersectingIds es))
       (navigation w)"
  by (induction es rule: rev_induct)
    (simp_all add: handleSection_snoc navigation_sectionEntry intersectingIds_def
      option.map_comp comp_def option.map_ident)

lemma active_updateActiveLink:
  "l \<in> set (updateActiveLink i links) \<Longrightarrow>
   (''nav__link--active'' \<in> set (linkClasses l)) = (href l = CHR ''#'' # i)"
  by (auto simp: updateActiveLink_def classList_toggle_def classList_remove_def
      split: if_splits)

lemma active_link_after:
  assumes "intersectingIds es \<noteq> []" and "navigation w \<noteq> None"
    and "l \<in> set (the (navigation (handleSectionIntersection es w)))"
  shows "(''nav__link--active'' \<in> set (linkClasses l)) =
           (href l = CHR ''#'' # last (intersectingIds es))"
proof -
  from assms(2) obtain links where links: "navigation w = Some links" by auto
  from assms(1) obtain ids i where ids: "intersectingIds es = ids @ [i]"
    by (metis rev_exhaust)
  have "the (navigation (handleSectionIntersection es w)) =
          updateActiveLink i (foldl (\<lambda>ls i. updateActiveLink i ls) links ids)"
    by (simp add: navigation_handle links ids)
  with assms(3) show ?thesis
    by (simp add: ids active_updateActiveLink)
qed

text \<open>
  C8. When a batch handed to the section watcher has at least one intersecting entry,
  the \<^verbatim>\<open>currentSection\<close> field of the state afterwards is the id of the last
  intersecting entry in the order the batch lists them, and the navigation module, when
  present, has been called with the id of every intersecting entry, in that order and
  with nothing else.
\<close>

theorem section_last_wins:
  "intersectingIds entries \<noteq> [] \<Longrightarrow>
   appState (handleSectionIntersection entries w) ''currentSection'' =
     Some (JStr (last (intersectingIds entries))) \<and>
   (navigation w \<noteq> None \<longrightarrow>
      navCalls (handleSectionIntersection entries w) = navCalls w @ intersectingIds entries)"
  by (simp add: currentSection_handle navCalls_handle)

theorem section_last_wins_witness:
  "intersectingIds [Entry ''stories'' True, Entry ''home'' False, Entry ''history'' True] \<noteq> [] \<and>
   appState (handleSectionIntersection
       [Entry ''stories'' True, Entry ''home'' False, Entry ''history'' True] navPage)
     ''currentSection'' = Some (JStr ''history'') \<and>
   navigation navPage \<noteq> None \<and>
   navCalls (handleSectionIntersection
       [Entry ''stories'' True, Entry ''home'' False, Entry ''history'' True] navPage) =
     [''stories'', ''history'']"
  using section_last_wins
    [of "[Entry ''stories'' True, Entry ''home'' False, Entry ''history'' True]" navPage]
  by (simp add: intersectingIds_def navPage_def)

subsection \<open>Particle construction, update and drawing\<close>

lemma pushParticles_eq:
  "pushParticles rnd cv count i k particles =
     particles @ map (\<lambda>j. newParticle rnd (k + 6 * j) cv) [0 ..< count - i]"
proof (induction rnd cv count i k particles rule: pushParticles.induct)
  case (1 rnd cv count i k particles)
  show ?case
  proof (cases "i < count")
    case True
    then have split: "[0 ..< count - i] = 0 # map Suc [0 ..< count - (i + 1)]"
      by (metis Suc_diff_Suc add.commute plus_1_eq_Suc upt_conv_Cons map_Suc_upt zero_less_diff diff_diff_left)
    show ?thesis
      using True 1
      by (subst pushParticles.simps) (simp add: split comp_def algebra_simps)
  next
    case False
    then show ?thesis by (subst pushParticles.simps) simp
  qed
qed

lemma update_fields:
  "p_x (update cv p) = p_x p + p_vx p"
  "p_y (update cv p) = p_y p + p_vy p"
  "p_vx (update cv p) =
     (if p_x p + p_vx p < 0 \<or> p_x p + p_vx p > real (width cv) then - p_vx p else p_vx p)"
  "p_vy (update cv p) =
     (if p_y p + p_vy p < 0 \<or> p_y p + p_vy p > real (height cv) then - p_vy p else p_vy p)"
  "p_size (update cv p) = p_size p"
  "p_opacity (update cv p) = p_opacity p"
  by (simp_all add: update_def Let_def)

lemma foldl_updateAndDraw:
  "foldl (updateAndDraw cv) (calls, done) particles =
     (calls @ concat (map (\<lambda>p. draw (update cv p)) particles), done @ map (update cv) particles)"
  by (induction particles arbitrary: calls "done") (simp_all add: updateAndDraw_def Let_def)

lemma concat_nested:
  "concat (map (\<lambda>i. concat (map (g i) (l i))) xs) =
     concat (map (\<lambda>(i, j). g i j) (concat (map (\<lambda>i. map (Pair i) (l i)) xs)))"
  by (induction xs) (simp_all add: comp_def)

lemma drawConnections_pairs:
  "drawConnections ps = concat (map (\<lambda>(i, j). connection (ps ! i) (ps ! j)) (pairs (length ps)))"
  unfolding drawConnections_def pairs_def
  by (rule concat_nested [of "\<lambda>i j. connection (ps ! i) (ps ! j)" "\<lambda>i. [i + 1 ..< length ps]"])

lemma filter_greater_upt: "filter (\<lambda>j. i < j) [0 ..< n] = [Suc i ..< n]"
  by (induction n) auto

lemma pairs_product:
  "pairs n = filter (\<lambda>(i, j). i < j) (List.product [0 ..< n] [0 ..< n])"
  by (simp add: pairs_def product_concat_map filter_concat comp_def filter_map
      filter_greater_upt)

lemma set_pairs: "set (pairs n) = {(i, j). i < j \<and> j < n}"
  by (auto simp: pairs_product)

lemma distinct_pairs: "distinct (pairs n)"
  by (simp add: pairs_product distinct_product)

lemma length_pairs: "length (pairs n) = n * (n - 1) div 2"
proof -
  have "length (pairs n) = (\<Sum>i\<leftarrow>[0..<n]. n - Suc i)"
    by (simp add: pairs_def length_concat comp_def)
  also have "\<dots> = (\<Sum>i\<in>{0..<n}. n - Suc i)"
    by (simp add: interv_sum_list_conv_sum_set_nat)
  also have "\<dots> = (\<Sum>i\<in>{0..<n}. i)"
    by (rule sum.nat_diff_reindex [of "\<lambda>i. i" n, simplified atLeast0LessThan [symmetric]])
  also have "\<dots> = n * (n - 1) div 2"
    by (simp add: Sum_Ico_nat)
  finally show ?thesis .
qed

lemma count_Fill_draw [simp]: "count_list (draw p) Fill = 1"
  by (simp add: draw_def)

lemma count_Stroke_draw [simp]: "count_list (draw p) Stroke = 0"
  by (simp add: draw_def)

lemma count_Fill_connection [simp]: "count_list (connection p q) Fill = 0"
  by (simp add: connection_def Let_def)

lemma count_Stroke_connection:
  "count_list (connection p q) Stroke = (if distance p q < maxDistance then 1 else 0)"
  by (simp add: connection_def Let_def)

lemma count_Fill_draws: "count_list (concat (map draw ps)) Fill = length ps"
  by (induction ps) (simp_all add: count_list_append)

lemma count_Stroke_draws: "count_list (concat (map draw ps)) Stroke = 0"
  by (induction ps) (simp_all add: count_list_append)

lemma count_Fill_connections:
  "count_list (concat (map (\<lambda>(i, j). connection (ps ! i) (ps ! j)) ijs)) Fill = 0"
  by (induction ijs) (auto simp: count_list_append)

lemma count_Stroke_connections:
  "count_list (concat (map (\<lambda>(i, j). connection (ps ! i) (ps ! j)) ijs)) Stroke =
     length (filter (\<lambda>(i, j). distance (ps ! i) (ps ! j) < maxDistance) ijs)"
  by (induction ijs) (auto simp: count_list_append count_Stroke_connection)

subsection \<open>One frame draws one circle per particle and one line per close pair\<close>

lemma animate_eq:
  "animate cv particles =
     (ClearRect 0 0 (real (width cv)) (real (height cv)) #
        concat (map draw (map (update cv) particles)) @
        drawConnections (map (update cv) particles),
      map (update cv) particles)"
  by (simp add: animate_def Let_def foldl_updateAndDraw comp_def)

text \<open>
  C5. One frame over \<open>n\<close> particles makes these calls, in this order: the clearing of
  the surface; for each particle the seven calls of \<^verbatim>\<open>draw\<close>, which fill one circle
  at the particle's position after this frame's update, with its radius and opacity;
  and for each index pair \<open>i < j < n\<close>, visited once, the calls of one line from
  particle \<open>i\<close> to particle \<open>j\<close> with opacity \<open>(100 - d) / 100 * 0.2\<close> when their
  Euclidean distance \<open>d\<close> is below 100, and no call otherwise. So the frame has exactly
  \<open>n\<close> \<^verbatim>\<open>fill\<close> calls and as many \<^verbatim>\<open>stroke\<close> calls as there are pairs closer than
  100, at most \<open>n (n - 1) / 2\<close>. With no particle the frame only clears the surface.
  The only division of the pass is by the constant 100.
\<close>

theorem animate_draws:
  "let ps = map (update cv) particles;
       calls = fst (animate cv particles);
       n = length particles
   in snd (animate cv particles) = ps \<and>
      calls =
        ClearRect 0 0 (real (width cv)) (real (height cv)) #
        concat (map draw ps) @
        concat (map (\<lambda>(i, j). connection (ps ! i) (ps ! j)) (pairs n)) \<and>
      set (pairs n) = {(i, j). i < j \<and> j < n} \<and>
      distinct (pairs n) \<and>
      (\<forall>p. draw p =
          [Save, GlobalAlpha (p_opacity p), FillStyle ''#00FFFF'', BeginPath,
           Arc (p_x p) (p_y p) (p_size p) 0 (pi * 2), Fill, Restore]) \<and>
      (\<forall>p q. connection p q =
          (if distance p q < 100
           then [Save, GlobalAlpha ((100 - distance p q) / 100 * 0.2),
                 StrokeStyle ''#00FFFF'', LineWidth 0.5, BeginPath,
                 MoveTo (p_x p) (p_y p), LineTo (p_x q) (p_y q), Stroke, Restore]
           else [])) \<and>
      (\<forall>p q. distance p q = sqrt ((p_x p - p_x q)\<^sup>2 + (p_y p - p_y q)\<^sup>2)) \<and>
      count_list calls Fill = n \<and>
      count_list calls Stroke =
        length (filter (\<lambda>(i, j). distance (ps ! i) (ps ! j) < 100) (pairs n)) \<and>
      count_list calls Stroke \<le> n * (n - 1) div 2 \<and>
      (n = 0 \<longrightarrow> calls = [ClearRect 0 0 (real (width cv)) (real (height cv))])"
proof -
  define ps where "ps = map (update cv) particles"
  define n where "n = length particles"
  have len: "length ps = n" by (simp add: ps_def n_def)
  have calls: "fst (animate cv particles) =
      ClearRect 0 0 (real (width cv)) (real (height cv)) #
      concat (map draw ps) @
      concat (map (\<lambda>(i, j). connection (ps ! i) (ps ! j)) (pairs n))"
    by (simp add: animate_eq ps_def [symmetric] drawConnections_pairs len)
  have parts: "snd (animate cv particles) = ps"
    by (simp add: animate_eq ps_def)
  have fills: "count_list (fst (animate cv particles)) Fill = n"
    by (simp add: calls count_list_append count_Fill_draws count_Fill_connections len)
  have strokes: "count_list (fst (animate cv particles)) Stroke =
      length (filter (\<lambda>(i, j). distance (ps ! i) (ps ! j) < 100) (pairs n))"
    by (simp add: calls count_list_append count_Stroke_draws count_Stroke_connections
        maxDistance_def)
  have bound: "count_list (fst (animate cv particles)) Stroke \<le> n * (n - 1) div 2"
    unfolding strokes using length_filter_le [of _ "pairs n"] by (simp add: length_pairs)
  have empty: "n = 0 \<longrightarrow>
      fst (animate cv particles) = [ClearRect 0 0 (real (width cv)) (real (height cv))]"
    by (simp add: n_def animate_eq drawConnections_def)
  have conn: "\<forall>p q. connection p q =
          (if distance p q < 100
           then [Save, GlobalAlpha ((100 - distance p q) / 100 * 0.2),
                 StrokeStyle ''#00FFFF'', LineWidth 0.5, BeginPath,
                 MoveTo (p_x p) (p_y p), LineTo (p_x q) (p_y q), Stroke, Restore]
           else [])"
    by (simp add: connection_def maxDistance_def Let_def)
  have dist: "\<forall>p q. distance p q = sqrt ((p_x p - p_x q)\<^sup>2 + (p_y p - p_y q)\<^sup>2)"
    by (simp add: distance_def Let_def power2_eq_square)
  have circ: "\<forall>p. draw p =
          [Save, GlobalAlpha (p_opacity p), FillStyle ''#00FFFF'', BeginPath,
           Arc (p_x p) (p_y p) (p_size p) 0 (pi * 2), Fill, Restore]"
    by (simp add: draw_def)
  show ?thesis
    unfolding Let_def ps_def [symmetric] n_def [symmetric]
    using parts calls set_pairs [of n] distinct_pairs [of n] circ conn dist fills strokes
      bound empty
    by blast
qed

lemma sqrt_square: "0 \<le> a \<Longrightarrow> sqrt (a * a) = a"
  by simp

lemma threeParticles_distances:
  "distance (threeParticles ! 0) (threeParticles ! 1) = 5"
  "distance (threeParticles ! 0) (threeParticles ! 2) = 500"
  "distance (threeParticles ! 1) (threeParticles ! 2) = 495"
proof -
  have a: "sqrt 25 = 5" using sqrt_square [of 5] by simp
  have b: "sqrt 250000 = 500" using sqrt_square [of 500] by simp
  have c: "sqrt 245025 = 495" using sqrt_square [of 495] by simp
  show "distance (threeParticles ! 0) (threeParticles ! 1) = 5"
    by (simp add: distance_def threeParticles_def a)
  show "distance (threeParticles ! 0) (threeParticles ! 2) = 500"
    by (simp add: distance_def threeParticles_def b)
  show "distance (threeParticles ! 1) (threeParticles ! 2) = 495"
    by (simp add: distance_def threeParticles_def c)
qed

lemma threeParticles_rest: "map (update surface) threeParticles = threeParticles"
  by (simp add: threeParticles_def update_def surface_def Let_def)

lemma pairs_3: "pairs 3 = [(0, 1), (0, 2), (1, 2)]"
  by (simp add: pairs_def upt_rec [of _ "numeral _"] upt_rec [of _ "Suc _"] numeral_3_eq_3)

theorem animate_draws_witness:
  "fst (animate surface []) = [ClearRect 0 0 800 600] \<and>
   count_list (fst (animate surface threeParticles)) Fill = 3 \<and>
   count_list (fst (animate surface threeParticles)) Stroke = 1 \<and>
   (1::nat) \<le> 3 * (3 - 1) div 2"
proof -
  have none: "fst (animate surface []) = [ClearRect 0 0 800 600]"
    using animate_draws [of surface "[]"] by (simp add: Let_def surface_def)
  have three: "length threeParticles = 3" by (simp add: threeParticles_def)
  have near: "filter (\<lambda>(i, j). distance (threeParticles ! i) (threeParticles ! j) < 100) (pairs 3)
      = [(0, 1)]"
    by (simp add: pairs_3 threeParticles_distances [unfolded One_nat_def])
  note at_three = animate_draws [of surface threeParticles,
      unfolded Let_def threeParticles_rest three]
  from at_three have fills: "count_list (fst (animate surface threeParticles)) Fill = 3"
    by blast
  from at_three have "count_list (fst (animate surface threeParticles)) Stroke =
      length (filter (\<lambda>(i, j). distance (threeParticles ! i) (threeParticles ! j) < 100)
                (pairs 3))"
    by blast
  then have strokes: "count_list (fst (animate surface threeParticles)) Stroke = 1"
    by (simp add: near)
  from fills strokes
  have "count_list (fst (animate surface threeParticles)) Fill = 3 \<and>
        count_list (fst (animate surface threeParticles)) Stroke = 1"
    by simp
  with none show ?thesis by simp
qed

subsection \<open>A tick advances the particle and reflects it at the walls\<close>

text \<open>
  C6. A tick moves a particle by its velocity. The velocity component of an axis is
  negated by the tick whose move has taken the position beyond that axis's bounds
  (below 0, or above the canvas dimension), and is left as it was by every tick whose
  move ends within them. The position is not clamped: the tick that reflects leaves the
  particle outside the bounds. A particle that was inside the bounds of an axis and is
  carried outside them by a tick is inside them again after the next tick.
\<close>

theorem update_soft_boundary:
  "let p' = update cv p; W = real (width cv); H = real (height cv)
   in p_x p' = p_x p + p_vx p \<and>
      p_y p' = p_y p + p_vy p \<and>
      p_vx p' = (if p_x p' < 0 \<or> W < p_x p' then - p_vx p else p_vx p) \<and>
      p_vy p' = (if p_y p' < 0 \<or> H < p_y p' then - p_vy p else p_vy p) \<and>
      p_size p' = p_size p \<and>
      p_opacity p' = p_opacity p \<and>
      (0 \<le> p_x p \<and> p_x p \<le> W \<and> (p_x p' < 0 \<or> W < p_x p') \<longrightarrow>
         0 \<le> p_x (update cv p') \<and> p_x (update cv p') \<le> W) \<and>
      (0 \<le> p_y p \<and> p_y p \<le> H \<and> (p_y p' < 0 \<or> H < p_y p') \<longrightarrow>
         0 \<le> p_y (update cv p') \<and> p_y (update cv p') \<le> H)"
  by (simp add: Let_def update_fields)

theorem update_soft_boundary_witness:
  "0 \<le> p_x edgeParticle \<and> p_x edgeParticle \<le> real (width surface) \<and>
   p_x (update surface edgeParticle) = - 0.125 \<and>
   p_x (update surface edgeParticle) < 0 \<and>
   p_vx (update surface edgeParticle) = 0.25 \<and>
   p_y (update surface edgeParticle) = 300.125 \<and>
   p_vy (update surface edgeParticle) = 0.125 \<and>
   0 \<le> p_x (update surface (update surface edgeParticle)) \<and>
   p_x (update surface (update surface edgeParticle)) \<le> real (width surface)"
proof -
  note u = update_soft_boundary [of surface edgeParticle, unfolded Let_def]
  have inside: "0 \<le> p_x edgeParticle \<and> p_x edgeParticle \<le> real (width surface)"
    by (simp add: edgeParticle_def surface_def)
  from u have x: "p_x (update surface edgeParticle) = - 0.125"
    by (simp add: edgeParticle_def)
  from u have y: "p_y (update surface edgeParticle) = 300.125"
    by (simp add: edgeParticle_def)
  from u x have vx: "p_vx (update surface edgeParticle) = 0.25"
    by (simp add: edgeParticle_def)
  from u y have vy: "p_vy (update surface edgeParticle) = 0.125"
    by (simp add: edgeParticle_def surface_def)
  from x have out: "p_x (update surface edgeParticle) < 0" by simp
  from u inside out
  have again: "0 \<le> p_x (update surface (update surface edgeParticle)) \<and>
      p_x (update surface (update surface edgeParticle)) \<le> real (width surface)"
    by blast
  from inside x out vx y vy again show ?thesis by (intro conjI) simp_all
qed

subsection \<open>Initialisation of the particle field\<close>

lemma newParticle_ranges:
  assumes "\<forall>k. 0 \<le> rnd k \<and> rnd k < 1"
  shows "0 \<le> p_x (newParticle rnd k cv)" "p_x (newParticle rnd k cv) \<le> real (width cv)"
    "0 \<le> p_y (newParticle rnd k cv)" "p_y (newParticle rnd k cv) \<le> real (height cv)"
    "- 0.25 \<le> p_vx (newParticle rnd k cv)" "p_vx (newParticle rnd k cv) \<le> 0.25"
    "- 0.25 \<le> p_vy (newParticle rnd k cv)" "p_vy (newParticle rnd k cv) \<le> 0.25"
    "1 \<le> p_size (newParticle rnd k cv)" "p_size (newParticle rnd k cv) \<le> 3"
    "0.2 \<le> p_opacity (newParticle rnd k cv)" "p_opacity (newParticle rnd k cv) \<le> 0.7"
proof -
  have r: "0 \<le> rnd j" "rnd j < 1" for j using assms by auto
  show "0 \<le> p_x (newParticle rnd k cv)" using r [of k] by (simp add: newParticle_def)
  show "p_x (newParticle rnd k cv) \<le> real (width cv)"
    using r [of k] by (simp add: newParticle_def mult_left_le_one_le)
  show "0 \<le> p_y (newParticle rnd k cv)" using r [of "k + 1"] by (simp add: newParticle_def)
  show "p_y (newParticle rnd k cv) \<le> real (height cv)"
    using r [of "k + 1"] by (simp add: newParticle_def mult_left_le_one_le)
  show "- 0.25 \<le> p_vx (newParticle rnd k cv)" using r [of "k + 2"] by (simp add: newParticle_def)
  show "p_vx (newParticle rnd k cv) \<le> 0.25" using r [of "k + 2"] by (simp add: newParticle_def)
  show "- 0.25 \<le> p_vy (newParticle rnd k cv)" using r [of "k + 3"] by (simp add: newParticle_def)
  show "p_vy (newParticle rnd k cv) \<le> 0.25" using r [of "k + 3"] by (simp add: newParticle_def)
  show "1 \<le> p_size (newParticle rnd k cv)" using r [of "k + 4"] by (simp add: newParticle_def)
  show "p_size (newParticle rnd k cv) \<le> 3" using r [of "k + 4"] by (simp add: newParticle_def)
  show "0.2 \<le> p_opacity (newParticle rnd k cv)" using r [of "k + 5"] by (simp add: newParticle_def)
  show "p_opacity (newParticle rnd k cv) \<le> 0.7" using r [of "k + 5"] by (simp add: newParticle_def)
qed

lemma pushParticles_initialized:
  assumes "\<forall>k. 0 \<le> rnd k \<and> rnd k < 1"
  shows "length (pushParticles rnd cv count 0 0 []) = count \<and>
         (\<forall>i < count.
            let p = pushParticles rnd cv count 0 0 [] ! i
            in p_x p = rnd (6 * i) * real (width cv) \<and>
               p_y p = rnd (6 * i + 1) * real (height cv) \<and>
               p_vx p = (rnd (6 * i + 2) - 0.5) * 0.5 \<and>
               p_vy p = (rnd (6 * i + 3) - 0.5) * 0.5 \<and>
               p_size p = rnd (6 * i + 4) * 2 + 1 \<and>
               p_opacity p = rnd (6 * i + 5) * 0.5 + 0.2 \<and>
               0 \<le> p_x p \<and> p_x p \<le> real (width cv) \<and>
               0 \<le> p_y p \<and> p_y p \<le> real (height cv) \<and>
               - 0.25 \<le> p_vx p \<and> p_vx p \<le> 0.25 \<and>
               - 0.25 \<le> p_vy p \<and> p_vy p \<le> 0.25 \<and>
               1 \<le> p_size p \<and> p_size p \<le> 3 \<and>
               0.2 \<le> p_opacity p \<and> p_opacity p \<le> 0.7)"
proof -
  have len: "length (pushParticles rnd cv count 0 0 []) = count"
    by (simp add: pushParticles_eq)
  have each: "pushParticles rnd cv count 0 0 [] ! i = newParticle rnd (6 * i) cv"
    if "i < count" for i
    using that by (simp add: pushParticles_eq)
  have fields: "p_x (newParticle rnd (6 * i) cv) = rnd (6 * i) * real (width cv) \<and>
      p_y (newParticle rnd (6 * i) cv) = rnd (6 * i + 1) * real (height cv) \<and>
      p_vx (newParticle rnd (6 * i) cv) = (rnd (6 * i + 2) - 0.5) * 0.5 \<and>
      p_vy (newParticle rnd (6 * i) cv) = (rnd (6 * i + 3) - 0.5) * 0.5 \<and>
      p_size (newParticle rnd (6 * i) cv) = rnd (6 * i + 4) * 2 + 1 \<and>
      p_opacity (newParticle rnd (6 * i) cv) = rnd (6 * i + 5) * 0.5 + 0.2" for i
    by (simp add: newParticle_def)
  have every: "\<forall>i < count.
            let p = pushParticles rnd cv count 0 0 [] ! i
            in p_x p = rnd (6 * i) * real (width cv) \<and>
               p_y p = rnd (6 * i + 1) * real (height cv) \<and>
               p_vx p = (rnd (6 * i + 2) - 0.5) * 0.5 \<and>
               p_vy p = (rnd (6 * i + 3) - 0.5) * 0.5 \<and>
               p_size p = rnd (6 * i + 4) * 2 + 1 \<and>
               p_opacity p = rnd (6 * i + 5) * 0.5 + 0.2 \<and>
               0 \<le> p_x p \<and> p_x p \<le> real (width cv) \<and>
               0 \<le> p_y p \<and> p_y p \<le> real (height cv) \<and>
               - 0.25 \<le> p_vx p \<and> p_vx p \<le> 0.25 \<and>
               - 0.25 \<le> p_vy p \<and> p_vy p \<le> 0.25 \<and>
               1 \<le> p_size p \<and> p_size p \<le> 3 \<and>
               0.2 \<le> p_opacity p \<and> p_opacity p \<le> 0.7"
  proof (intro allI impI)
    fix i assume "i < count"
    note at = each [OF this]
    show "let p = pushParticles rnd cv count 0 0 [] ! i
            in p_x p = rnd (6 * i) * real (width cv) \<and>
               p_y p = rnd (6 * i + 1) * real (height cv) \<and>
               p_vx p = (rnd (6 * i + 2) - 0.5) * 0.5 \<and>
               p_vy p = (rnd (6 * i + 3) - 0.5) * 0.5 \<and>
               p_size p = rnd (6 * i + 4) * 2 + 1 \<and>
               p_opacity p = rnd (6 * i + 5) * 0.5 + 0.2 \<and>
               0 \<le> p_x p \<and> p_x p \<le> real (width cv) \<and>
               0 \<le> p_y p \<and> p_y p \<le> real (height cv) \<and>
               - 0.25 \<le> p_vx p \<and> p_vx p \<le> 0.25 \<and>
               - 0.25 \<le> p_vy p \<and> p_vy p \<le> 0.25 \<and>
               1 \<le> p_size p \<and> p_size p \<le> 3 \<and>
               0.2 \<le> p_opacity p \<and> p_opacity p \<le> 0.7"
      unfolding Let_def at
      using newParticle_ranges [OF assms, of "6 * i" cv]
      by (simp add: newParticle_def)
  qed
  from len every show ?thesis by (intro conjI)
qed

lemma createParticles_loop: "createParticles rnd cv = pushParticles rnd cv 50 0 0 []"
  by (simp add: createParticles_def particleCount_def)

text \<open>
  C7. With every draw of the random source in \<open>[0, 1)\<close>, the initialisation the
  source performs allocates exactly 50 particles, the bound it fixes, and the loop run
  to any bound \<open>count\<close> allocates exactly \<open>count\<close>. Particle \<open>i\<close> takes the six
  draws from \<open>6 i\<close> on: its position is the first two scaled by the canvas width and
  height, its velocity components are the next two shifted and scaled into
  \<open>[-0.25, 0.25]\<close>, its radius lies in \<open>[1, 3]\<close> and its opacity in \<open>[0.2, 0.7]\<close>.
  Each field is an affine image, of non-zero scale, of a draw of its own, so it is
  distributed over its interval as the draw is over \<open>[0, 1)\<close>.
\<close>

theorem particles_initialized:
  assumes "\<forall>k. 0 \<le> rnd k \<and> rnd k < 1"
  shows "length (createParticles rnd cv) = 50 \<and>
         (\<forall>i < 50.
            let p = createParticles rnd cv ! i
            in p_x p = rnd (6 * i) * real (width cv) \<and>
               p_y p = rnd (6 * i + 1) * real (height cv) \<and>
               p_vx p = (rnd (6 * i + 2) - 0.5) * 0.5 \<and>
               p_vy p = (rnd (6 * i + 3) - 0.5) * 0.5 \<and>
               p_size p = rnd (6 * i + 4) * 2 + 1 \<and>
               p_opacity p = rnd (6 * i + 5) * 0.5 + 0.2 \<and>
               0 \<le> p_x p \<and> p_x p \<le> real (width cv) \<and>
               0 \<le> p_y p \<and> p_y p \<le> real (height cv) \<and>
               - 0.25 \<le> p_vx p \<and> p_vx p \<le> 0.25 \<and>
               - 0.25 \<le> p_vy p \<and> p_vy p \<le> 0.25 \<and>
               1 \<le> p_size p \<and> p_size p \<le> 3 \<and>
               0.2 \<le> p_opacity p \<and> p_opacity p \<le> 0.7) \<and>
         length (pushParticles rnd cv count 0 0 []) = count \<and>
         (\<forall>i < count.
            let p = pushParticles rnd cv count 0 0 [] ! i
            in p_x p = rnd (6 * i) * real (width cv) \<and>
               p_y p = rnd (6 * i + 1) * real (height cv) \<and>
               p_vx p = (rnd (6 * i + 2) - 0.5) * 0.5 \<and>
               p_vy p = (rnd (6 * i + 3) - 0.5) * 0.5 \<and>
               p_size p = rnd (6 * i + 4) * 2 + 1 \<and>
               p_opacity p = rnd (6 * i + 5) * 0.5 + 0.2 \<and>
               0 \<le> p_x p \<and> p_x p \<le> real (width cv) \<and>
               0 \<le> p_y p \<and> p_y p \<le> real (height cv) \<and>
               - 0.25 \<le> p_vx p \<and> p_vx p \<le> 0.25 \<and>
               - 0.25 \<le> p_vy p \<and> p_vy p \<le> 0.25 \<and>
               1 \<le> p_size p \<and> p_size p \<le> 3 \<and>
               0.2 \<le> p_opacity p \<and> p_opacity p \<le> 0.7)"
proof -
  note fixed = pushParticles_initialized [OF assms, of cv 50, folded createParticles_loop]
  note free = pushParticles_initialized [OF assms, of cv count]
  from fixed [THEN conjunct1] fixed [THEN conjunct2] free [THEN conjunct1] free [THEN conjunct2]
  show ?thesis by (intro conjI)
qed

theorem particles_initialized_witness:
  "(\<forall>k::nat. (0::real) \<le> 1 / 2 \<and> (1::real) / 2 < 1) \<and>
   length (createParticles (\<lambda>k. 1 / 2) surface) = 50 \<and>
   p_x (createParticles (\<lambda>k. 1 / 2) surface ! 49) = 400 \<and>
   p_y (createParticles (\<lambda>k. 1 / 2) surface ! 49) = 300 \<and>
   p_vx (createParticles (\<lambda>k. 1 / 2) surface ! 49) = 0 \<and>
   p_vy (createParticles (\<lambda>k. 1 / 2) surface ! 49) = 0 \<and>
   p_size (createParticles (\<lambda>k. 1 / 2) surface ! 49) = 2 \<and>
   0.2 \<le> p_opacity (createParticles (\<lambda>k. 1 / 2) surface ! 49) \<and>
   p_opacity (createParticles (\<lambda>k. 1 / 2) surface ! 49) \<le> 0.7 \<and>
   length (pushParticles (\<lambda>k. 1 / 2) surface 2 0 0 []) = 2 \<and>
   p_x (pushParticles (\<lambda>k. 1 / 2) surface 2 0 0 [] ! 1) = 400"
proof -
  have draws: "\<forall>k::nat. (0::real) \<le> 1 / 2 \<and> (1::real) / 2 < 1" by simp
  note init = particles_initialized [of "\<lambda>k. 1 / 2" surface 2, OF draws, unfolded Let_def]
  have fifty: "length (createParticles (\<lambda>k. 1 / 2) surface) = 50"
    using init [THEN conjunct1] .
  have last_one:
     "p_x (createParticles (\<lambda>k. 1 / 2) surface ! 49) = 400 \<and>
      p_y (createParticles (\<lambda>k. 1 / 2) surface ! 49) = 300 \<and>
      p_vx (createParticles (\<lambda>k. 1 / 2) surface ! 49) = 0 \<and>
      p_vy (createParticles (\<lambda>k. 1 / 2) surface ! 49) = 0 \<and>
      p_size (createParticles (\<lambda>k. 1 / 2) surface ! 49) = 2 \<and>
      0.2 \<le> p_opacity (createParticles (\<lambda>k. 1 / 2) surface ! 49) \<and>
      p_opacity (createParticles (\<lambda>k. 1 / 2) surface ! 49) \<le> 0.7"
    using init [THEN conjunct2, THEN conjunct1, rule_format, of 49]
    by (simp add: surface_def)
  have two: "length (pushParticles (\<lambda>k. 1 / 2) surface 2 0 0 []) = 2"
    using init [THEN conjunct2, THEN conjunct2, THEN conjunct1] .
  have second: "p_x (pushParticles (\<lambda>k. 1 / 2) surface 2 0 0 [] ! 1) = 400"
    using init [THEN conjunct2, THEN conjunct2, THEN conjunct2, rule_format, of 1]
    by (simp add: surface_def)
  from draws fifty last_one two second show ?thesis by (intro conjI) simp_all
qed

subsection \<open>Pausing and resuming the particle loop\<close>

text \<open>
  The states of the page with a canvas: after the application has started the loop,
  after the first display refresh, and after a pause that follows it.
\<close>

lemma after_init:
  "initializeParticles pageLoad =
     \<lparr>canvasPresent = True, nextHandle = 2, frameCallbacks = [(1, 0)], animationId = [Some 1],
      particleAnimationId = Some 1, framesRun = 1\<rparr>"
  by (simp add: initializeParticles_def pageLoad_def animateLoop_def requestAnimationFrame_def
      Let_def)

lemma after_frame:
  "runFrame (initializeParticles pageLoad) =
     \<lparr>canvasPresent = True, nextHandle = 3, frameCallbacks = [(2, 0)], animationId = [Some 2],
      particleAnimationId = Some 1, framesRun = 2\<rparr>"
  by (simp add: after_init runFrame_def animateLoop_def requestAnimationFrame_def Let_def)

lemma after_pause:
  "pauseAnimations (runFrame (initializeParticles pageLoad)) =
     \<lparr>canvasPresent = True, nextHandle = 3, frameCallbacks = [(2, 0)], animationId = [Some 2],
      particleAnimationId = Some 1, framesRun = 2\<rparr>"
  by (simp add: after_frame pauseAnimations_def truthy_def cancelAnimationFrame_def)

lemma resume_after_pause:
  "truthy (particleAnimationId s) \<Longrightarrow> resumeAnimations (pauseAnimations s) = pauseAnimations s"
  by (auto simp: resumeAnimations_def pauseAnimations_def cancelAnimationFrame_def
      split: option.splits)

lemma frames_shape:
  "(runFrame ^^ Suc n) (initializeParticles pageLoad) =
     \<lparr>canvasPresent = True, nextHandle = n + 3, frameCallbacks = [(n + 2, 0)],
      animationId = [Some (n + 2)], particleAnimationId = Some 1, framesRun = n + 2\<rparr>"
proof (induction n)
  case 0
  show ?case by (simp add: after_frame)
next
  case (Suc n)
  have "(runFrame ^^ Suc (Suc n)) (initializeParticles pageLoad) =
          runFrame ((runFrame ^^ Suc n) (initializeParticles pageLoad))"
    by simp
  also have "\<dots> = \<lparr>canvasPresent = True, nextHandle = Suc n + 3,
      frameCallbacks = [(Suc n + 2, 0)], animationId = [Some (Suc n + 2)],
      particleAnimationId = Some 1, framesRun = Suc n + 2\<rparr>"
    unfolding Suc.IH
    by (simp add: runFrame_def animateLoop_def requestAnimationFrame_def Let_def)
  finally show ?case .
qed

lemma pause_after_first_frame:
  "pauseAnimations ((runFrame ^^ Suc n) (initializeParticles pageLoad)) =
     (runFrame ^^ Suc n) (initializeParticles pageLoad)"
  unfolding frames_shape
  by (simp add: pauseAnimations_def truthy_def cancelAnimationFrame_def)

text \<open>
  C1 says that a pause cancels the pending frame, so that no frame runs until a resume,
  and that a resume after a pause starts a new particle system. The code stores the
  handle of the first request only, and a pause never clears it. Evaluated on the page
  with a canvas: once the first refresh has run, the stored handle is 1 while the
  pending request has handle 2; the pause then cancels nothing, and the next refresh
  runs a third frame. A pause before the first refresh does cancel the request, but the
  resume after it changes nothing: the loop stays stopped and no second particle system
  is created.
\<close>

theorem pause_leaves_loop_running:
  "particleAnimationId (runFrame (initializeParticles pageLoad)) = Some 1 \<and>
   frameCallbacks (runFrame (initializeParticles pageLoad)) = [(2, 0)] \<and>
   frameCallbacks (pauseAnimations (runFrame (initializeParticles pageLoad))) = [(2, 0)] \<and>
   framesRun (pauseAnimations (runFrame (initializeParticles pageLoad))) = 2 \<and>
   framesRun (runFrame (pauseAnimations (runFrame (initializeParticles pageLoad)))) = 3 \<and>
   frameCallbacks (pauseAnimations (initializeParticles pageLoad)) = [] \<and>
   resumeAnimations (pauseAnimations (initializeParticles pageLoad)) =
     pauseAnimations (initializeParticles pageLoad) \<and>
   length (animationId (resumeAnimations (pauseAnimations (initializeParticles pageLoad)))) = 1"
proof -
  have early: "pauseAnimations (initializeParticles pageLoad) =
     \<lparr>canvasPresent = True, nextHandle = 2, frameCallbacks = [], animationId = [Some 1],
      particleAnimationId = Some 1, framesRun = 1\<rparr>"
    by (simp add: after_init pauseAnimations_def truthy_def cancelAnimationFrame_def)
  have resumed: "resumeAnimations (pauseAnimations (initializeParticles pageLoad)) =
      pauseAnimations (initializeParticles pageLoad)"
    by (simp add: early resumeAnimations_def truthy_def)
  have stored: "particleAnimationId (runFrame (initializeParticles pageLoad)) = Some 1"
    by (simp add: after_frame)
  have pending: "frameCallbacks (runFrame (initializeParticles pageLoad)) = [(2, 0)]"
    by (simp add: after_frame)
  have still: "frameCallbacks (pauseAnimations (runFrame (initializeParticles pageLoad))) = [(2, 0)]"
    by (simp add: after_pause)
  have two: "framesRun (pauseAnimations (runFrame (initializeParticles pageLoad))) = 2"
    by (simp add: after_pause)
  have three: "framesRun (runFrame (pauseAnimations (runFrame (initializeParticles pageLoad)))) = 3"
    unfolding after_pause
    by (simp add: runFrame_def animateLoop_def requestAnimationFrame_def Let_def)
  have cancelled: "frameCallbacks (pauseAnimations (initializeParticles pageLoad)) = []"
    by (simp add: early)
  have systems:
    "length (animationId (resumeAnimations (pauseAnimations (initializeParticles pageLoad)))) = 1"
    unfolding resumed by (simp add: early)
  from stored pending still two three cancelled resumed systems
  show ?thesis by (intro conjI)
qed

subsection \<open>Entry points and absent elements\<close>

lemma initializeParticles_no_canvas:
  "\<not> canvasPresent s \<Longrightarrow> initializeParticles s = s"
  by (simp add: initializeParticles_def)

lemma handleParallax_no_hero: "hero w = None \<Longrightarrow> handleParallax y w = w"
  by (simp add: handleParallax_def)

lemma fallback_handleScroll_no_header: "header w = None \<Longrightarrow> fallback_handleScroll w = w"
  by (simp add: fallback_handleScroll_def Let_def)

lemma handleScroll_no_header:
  "header w = None \<Longrightarrow>
   handleScroll w =
     (Some TypeError, w\<lparr>scrollState := (scrollState w)(''scrollPosition'' \<mapsto> JNum (pageYOffset w))\<rparr>)"
  by (simp add: handleScroll_def Let_def)

text \<open>
  C2 says that every entry point is a silent no-op when its element is absent. The
  particle initialisation, the parallax step and the fallback script's scroll handler
  are; the application's own scroll handler is not. On a page without a header it has
  already written the scroll position into the state when it reads the class list of
  \<^verbatim>\<open>null\<close> and throws.
\<close>

theorem handleScroll_throws_without_header:
  "fst (handleScroll barePage) = Some TypeError \<and>
   scrollState (snd (handleScroll barePage)) ''scrollPosition'' = Some (JNum 250) \<and>
   scrollState barePage ''scrollPosition'' = Some (JNum 0) \<and>
   fallback_handleScroll barePage = barePage"
  by (simp add: handleScroll_def fallback_handleScroll_def barePage_def initialState_def Let_def)

subsection \<open>The count-up of a statistics counter\<close>
















end
